theory Spec2Isabelle
  imports Main "HOL-Library.Word"
begin

section \<open>The notification store of \<^verbatim>\<open>src/Notification.h\<close> and \<^verbatim>\<open>src/Notification.cpp\<close>\<close>

text \<open>
  The class \<^verbatim>\<open>Notification\<close> is a map from string keys to one pending item per key,
  guarded by a FreeRTOS mutex. The embedding is a state-passing one: every member
  function takes the object and returns its result together with the updated object.

  What the FreeRTOS kernel answers is an input of the model:
  \<^item> whether \<^verbatim>\<open>xSemaphoreTake\<close> returned \<^verbatim>\<open>pdTRUE\<close> (a \<open>bool\<close>);
  \<^item> the value \<^verbatim>\<open>xTaskGetTickCount\<close> returned (a tick count);
  \<^item> for the three polling loops, one such pair of answers per loop iteration.
  Every call the code makes into the kernel is appended to a log kept beside the map, so
  that "no lock taken", "one lock attempt" and "no delay" are properties of the result.

  The target is the ESP32: pointers, \<^verbatim>\<open>int\<close>, \<^verbatim>\<open>size_t\<close> and \<^verbatim>\<open>TickType_t\<close> are 32 bits
  wide, and tick arithmetic wraps around.
\<close>

subsection \<open>Data\<close>

type_synonym ptr = "32 word"
type_synonym c_int = "32 word"
type_synonym TickType_t = "32 word"
type_synonym size_t = "32 word"

abbreviation nullptr :: ptr where
  "nullptr \<equiv> 0"

text \<open>
  \<^verbatim>\<open>struct NotificationItem { void* data; int signal; TickType_t timestamp; }\<close>.
  The member \<^verbatim>\<open>signal\<close> is the field \<open>signal_val\<close> here, the name \<open>signal\<close> being the
  member function's.
\<close>

record NotificationItem =
  data :: ptr
  signal_val :: c_int
  timestamp :: TickType_t

text \<open>
  The two constructors. Each one initialises two of the three members and leaves the
  third as it was in the storage the object is built in; \<open>raw\<close> is that storage.
  \<^verbatim>\<open>NotificationItem(void* d) : data(d), timestamp(xTaskGetTickCount()) {}\<close>
  \<^verbatim>\<open>NotificationItem(int s) : signal(s), timestamp(xTaskGetTickCount()) {}\<close>
\<close>

definition NotificationItem_data :: "NotificationItem \<Rightarrow> ptr \<Rightarrow> TickType_t \<Rightarrow> NotificationItem" where
  "NotificationItem_data raw d now = raw\<lparr>data := d, timestamp := now\<rparr>"

definition NotificationItem_signal :: "NotificationItem \<Rightarrow> c_int \<Rightarrow> TickType_t \<Rightarrow> NotificationItem" where
  "NotificationItem_signal raw s now = raw\<lparr>signal_val := s, timestamp := now\<rparr>"

text \<open>
  The kernel calls the code makes. The argument of \<open>xSemaphoreTake\<close> and of
  \<open>vTaskDelay\<close> is the number of milliseconds the code hands to \<^verbatim>\<open>pdMS_TO_TICKS\<close>.
\<close>

datatype rtos_call =
    xSemaphoreTake nat
  | xSemaphoreGive
  | xTaskGetTickCount
  | vTaskDelay nat

text \<open>
  The object: the map \<^verbatim>\<open>notifications\<close>, the handle \<^verbatim>\<open>mutex\<close> (\<open>nullptr\<close> when
  \<^verbatim>\<open>xSemaphoreCreateMutex\<close> failed), and the log of kernel calls.
\<close>

record Notification =
  notifications :: "string \<rightharpoonup> NotificationItem"
  mutex :: ptr
  rtos_log :: "rtos_call list"

text \<open>What the kernel answers during one iteration of a polling loop.\<close>

record rtos_reply =
  take_ok :: bool
  tick :: TickType_t

definition call :: "rtos_call \<Rightarrow> Notification \<Rightarrow> Notification" where
  "call c n = n\<lparr>rtos_log := rtos_log n @ [c]\<rparr>"

text \<open>\<^verbatim>\<open>std::map::erase\<close> and \<^verbatim>\<open>std::map::emplace\<close>; the latter inserts only under a free key.\<close>

definition erase :: "string \<Rightarrow> Notification \<Rightarrow> Notification" where
  "erase k n = n\<lparr>notifications := (notifications n)(k := None)\<rparr>"

definition emplace :: "string \<Rightarrow> NotificationItem \<Rightarrow> Notification \<Rightarrow> Notification" where
  "emplace k v n =
     (if notifications n k = None then n\<lparr>notifications := (notifications n)(k \<mapsto> v)\<rparr> else n)"

definition lock_attempts :: "Notification \<Rightarrow> nat" where
  "lock_attempts n = length (filter (\<lambda>c. case c of xSemaphoreTake ms \<Rightarrow> True | _ \<Rightarrow> False) (rtos_log n))"

subsection \<open>Member functions\<close>

text \<open>The constructor; \<open>created\<close> is what \<^verbatim>\<open>xSemaphoreCreateMutex\<close> returned.\<close>

definition Notification_new :: "ptr \<Rightarrow> Notification" where
  "Notification_new created = \<lparr>notifications = Map.empty, mutex = created, rtos_log = []\<rparr>"

text \<open>
  \<^verbatim>\<open>bool send(const char* key, void* data)\<close>. A \<^verbatim>\<open>const char*\<close> key is a \<open>string option\<close>,
  \<open>None\<close> for the null pointer.
\<close>

definition send :: "string option \<Rightarrow> ptr \<Rightarrow> rtos_reply \<Rightarrow> NotificationItem \<Rightarrow> Notification \<Rightarrow> bool \<times> Notification" where
  "send key d r raw n =
     (if mutex n = nullptr \<or> key = None then (False, n)
      else
        let n1 = call (xSemaphoreTake 100) n in
        if \<not> take_ok r then (False, n1)
        else
          let k = the key;
              n2 = (if notifications n1 k \<noteq> None then erase k n1 else n1);
              n3 = emplace k (NotificationItem_data raw d (tick r)) (call xTaskGetTickCount n2)
          in (True, call xSemaphoreGive n3))"

text \<open>\<^verbatim>\<open>bool send(const char* key, int signal)\<close>, the second overload.\<close>

definition send_int :: "string option \<Rightarrow> c_int \<Rightarrow> rtos_reply \<Rightarrow> NotificationItem \<Rightarrow> Notification \<Rightarrow> bool \<times> Notification" where
  "send_int key s r raw n =
     (if mutex n = nullptr \<or> key = None then (False, n)
      else
        let n1 = call (xSemaphoreTake 100) n in
        if \<not> take_ok r then (False, n1)
        else
          let k = the key;
              n2 = (if notifications n1 k \<noteq> None then erase k n1 else n1);
              n3 = emplace k (NotificationItem_signal raw s (tick r)) (call xTaskGetTickCount n2)
          in (True, call xSemaphoreGive n3))"

text \<open>
  \<^verbatim>\<open>void* consume(const char* key, TickType_t timeout_ticks)\<close>. \<open>consume_try\<close> is the
  locked part of one iteration (lines 79 to 91): \<open>Some\<close> is the \<^verbatim>\<open>return data\<close> inside
  it, \<open>None\<close> falls through to the timeout check. The loop runs over the kernel's
  answers, one per iteration; when they are used up the call has not returned, which is
  the result \<open>None\<close>.
\<close>

definition consume_try :: "string \<Rightarrow> bool \<Rightarrow> Notification \<Rightarrow> ptr option \<times> Notification" where
  "consume_try k ok n =
     (let n1 = call (xSemaphoreTake 10) n in
      if ok then
        (case notifications n1 k of
           Some item \<Rightarrow> (Some (data item), call xSemaphoreGive (erase k n1))
         | None \<Rightarrow> (None, call xSemaphoreGive n1))
      else (None, n1))"

fun consume_loop :: "string \<Rightarrow> TickType_t \<Rightarrow> TickType_t \<Rightarrow> rtos_reply list \<Rightarrow> Notification \<Rightarrow> ptr option \<times> Notification" where
  "consume_loop k timeout_ticks start_time [] n = (None, n)"
| "consume_loop k timeout_ticks start_time (r # rs) n =
     (case consume_try k (take_ok r) n of
        (Some d, n1) \<Rightarrow> (Some d, n1)
      | (None, n1) \<Rightarrow>
          let n2 = call xTaskGetTickCount n1;
              elapsed = tick r - start_time
          in if elapsed \<ge> timeout_ticks then (Some nullptr, n2)
             else consume_loop k timeout_ticks start_time rs (call (vTaskDelay 1) n2))"

definition consume :: "string option \<Rightarrow> TickType_t \<Rightarrow> TickType_t \<Rightarrow> rtos_reply list \<Rightarrow> Notification \<Rightarrow> ptr option \<times> Notification" where
  "consume key timeout_ticks start_time rs n =
     (if mutex n = nullptr \<or> key = None then (Some nullptr, n)
      else consume_loop (the key) timeout_ticks start_time rs (call xTaskGetTickCount n))"

text \<open>\<^verbatim>\<open>int signal(const char* key, TickType_t timeout_ticks)\<close>, with \<open>- 1\<close> for \<^verbatim>\<open>-1\<close>.\<close>

definition signal_try :: "string \<Rightarrow> bool \<Rightarrow> Notification \<Rightarrow> c_int option \<times> Notification" where
  "signal_try k ok n =
     (let n1 = call (xSemaphoreTake 0) n in
      if ok then
        (case notifications n1 k of
           Some item \<Rightarrow> (Some (signal_val item), call xSemaphoreGive (erase k n1))
         | None \<Rightarrow> (None, call xSemaphoreGive n1))
      else (None, n1))"

fun signal_loop :: "string \<Rightarrow> TickType_t \<Rightarrow> TickType_t \<Rightarrow> rtos_reply list \<Rightarrow> Notification \<Rightarrow> c_int option \<times> Notification" where
  "signal_loop k timeout_ticks start_time [] n = (None, n)"
| "signal_loop k timeout_ticks start_time (r # rs) n =
     (case signal_try k (take_ok r) n of
        (Some s, n1) \<Rightarrow> (Some s, n1)
      | (None, n1) \<Rightarrow>
          let n2 = call xTaskGetTickCount n1;
              elapsed = tick r - start_time
          in if elapsed \<ge> timeout_ticks then (Some (- 1), n2)
             else signal_loop k timeout_ticks start_time rs (call (vTaskDelay 1) n2))"

definition signal :: "string option \<Rightarrow> TickType_t \<Rightarrow> TickType_t \<Rightarrow> rtos_reply list \<Rightarrow> Notification \<Rightarrow> c_int option \<times> Notification" where
  "signal key timeout_ticks start_time rs n =
     (if mutex n = nullptr \<or> key = None then (Some (- 1), n)
      else signal_loop (the key) timeout_ticks start_time rs (call xTaskGetTickCount n))"

text \<open>\<^verbatim>\<open>bool has(const char* key)\<close> and \<^verbatim>\<open>bool hasSignal(const char* key)\<close>.\<close>

definition has :: "string option \<Rightarrow> bool \<Rightarrow> Notification \<Rightarrow> bool \<times> Notification" where
  "has key ok n =
     (if mutex n = nullptr \<or> key = None then (False, n)
      else
        let n1 = call (xSemaphoreTake 100) n in
        if \<not> ok then (False, n1)
        else
          let exists = (notifications n1 (the key) \<noteq> None)
          in (exists, call xSemaphoreGive n1))"

definition hasSignal :: "string option \<Rightarrow> bool \<Rightarrow> Notification \<Rightarrow> bool \<times> Notification" where
  "hasSignal key ok n =
     (if mutex n = nullptr \<or> key = None then (False, n)
      else
        let n1 = call (xSemaphoreTake 100) n in
        if \<not> ok then (False, n1)
        else
          let exists = (notifications n1 (the key) \<noteq> None)
          in (exists, call xSemaphoreGive n1))"

text \<open>\<^verbatim>\<open>bool remove(const char* key)\<close>.\<close>

definition remove :: "string option \<Rightarrow> bool \<Rightarrow> Notification \<Rightarrow> bool \<times> Notification" where
  "remove key ok n =
     (if mutex n = nullptr \<or> key = None then (False, n)
      else
        let n1 = call (xSemaphoreTake 100) n in
        if \<not> ok then (False, n1)
        else
          if notifications n1 (the key) \<noteq> None
          then (True, call xSemaphoreGive (erase (the key) n1))
          else (False, call xSemaphoreGive n1))"

text \<open>\<^verbatim>\<open>void clear()\<close> and \<^verbatim>\<open>size_t count()\<close>.\<close>

definition clear :: "bool \<Rightarrow> Notification \<Rightarrow> Notification" where
  "clear ok n =
     (if mutex n = nullptr then n
      else
        let n1 = call (xSemaphoreTake 100) n in
        if \<not> ok then n1
        else call xSemaphoreGive (n1\<lparr>notifications := Map.empty\<rparr>))"

definition count :: "bool \<Rightarrow> Notification \<Rightarrow> size_t \<times> Notification" where
  "count ok n =
     (if mutex n = nullptr then (0, n)
      else
        let n1 = call (xSemaphoreTake 100) n in
        if \<not> ok then (0, n1)
        else (of_nat (card (dom (notifications n1))), call xSemaphoreGive n1))"

text \<open>
  \<^verbatim>\<open>bool wait(const char* key, TickType_t timeout_ticks)\<close>. It checks the key only, then
  polls \<open>has\<close>.
\<close>

fun wait_loop :: "string \<Rightarrow> TickType_t \<Rightarrow> TickType_t \<Rightarrow> rtos_reply list \<Rightarrow> Notification \<Rightarrow> bool option \<times> Notification" where
  "wait_loop k timeout_ticks start_time [] n = (None, n)"
| "wait_loop k timeout_ticks start_time (r # rs) n =
     (let (found, n1) = has (Some k) (take_ok r) n in
      if found then (Some True, n1)
      else
        let n2 = call xTaskGetTickCount n1;
            elapsed = tick r - start_time
        in if elapsed \<ge> timeout_ticks then (Some False, n2)
           else wait_loop k timeout_ticks start_time rs (call (vTaskDelay 10) n2))"

definition wait :: "string option \<Rightarrow> TickType_t \<Rightarrow> TickType_t \<Rightarrow> rtos_reply list \<Rightarrow> Notification \<Rightarrow> bool option \<times> Notification" where
  "wait key timeout_ticks start_time rs n =
     (if key = None then (Some False, n)
      else wait_loop (the key) timeout_ticks start_time rs (call xTaskGetTickCount n))"

subsection \<open>Sample inputs\<close>

text \<open>
  A store whose mutex was created, kernel answers with the lock free and with the lock
  held by another task, and the storage a \<open>NotificationItem\<close> is built in, holding what
  an earlier use of that memory left there.
\<close>

definition example_store :: Notification where
  "example_store = Notification_new 1"

definition lock_free :: "TickType_t \<Rightarrow> rtos_reply" where
  "lock_free t = \<lparr>take_ok = True, tick = t\<rparr>"

definition lock_busy :: "TickType_t \<Rightarrow> rtos_reply" where
  "lock_busy t = \<lparr>take_ok = False, tick = t\<rparr>"

definition stale_item :: NotificationItem where
  "stale_item = \<lparr>data = 0x3FFB0010, signal_val = 85, timestamp = 0\<rparr>"

text \<open>
  The answers of a kernel whose tick count is read once per tick: \<open>m\<close> polls, the
  first one tick after \<open>st\<close>, each with the same outcome \<open>ok\<close> of the lock attempt.
\<close>

definition ticking :: "TickType_t \<Rightarrow> bool \<Rightarrow> nat \<Rightarrow> rtos_reply list" where
  "ticking st ok m = map (\<lambda>i. \<lparr>take_ok = ok, tick = st + of_nat (Suc i)\<rparr>) [0..<m]"

text \<open>
  The answers of a kernel whose tick count has advanced by \<open>d\<close> ticks between one poll
  and the next, as it does when the loop sleeps \<open>d\<close> ticks in \<open>vTaskDelay\<close>.
\<close>

definition ticking_by :: "nat \<Rightarrow> TickType_t \<Rightarrow> bool \<Rightarrow> nat \<Rightarrow> rtos_reply list" where
  "ticking_by d st ok m = map (\<lambda>i. \<lparr>take_ok = ok, tick = st + of_nat (d * Suc i)\<rparr>) [0..<m]"

section \<open>Properties\<close>

subsection \<open>Bookkeeping of the map operations and of the call log\<close>

lemma call_simps [simp]:
  "notifications (call c n) = notifications n"
  "mutex (call c n) = mutex n"
  "rtos_log (call c n) = rtos_log n @ [c]"
  by (simp_all add: call_def)

lemma erase_simps [simp]:
  "notifications (erase k n) = (notifications n)(k := None)"
  "mutex (erase k n) = mutex n"
  "rtos_log (erase k n) = rtos_log n"
  by (simp_all add: erase_def)

lemma emplace_simps [simp]:
  "notifications (emplace k v n) =
     (if notifications n k = None then (notifications n)(k \<mapsto> v) else notifications n)"
  "mutex (emplace k v n) = mutex n"
  "rtos_log (emplace k v n) = rtos_log n"
  by (simp_all add: emplace_def)

lemma lock_attempts_simps [simp]:
  "lock_attempts (call (xSemaphoreTake ms) n) = Suc (lock_attempts n)"
  "lock_attempts (call xSemaphoreGive n) = lock_attempts n"
  "lock_attempts (call xTaskGetTickCount n) = lock_attempts n"
  "lock_attempts (call (vTaskDelay ms) n) = lock_attempts n"
  "lock_attempts (erase k n) = lock_attempts n"
  "lock_attempts (emplace k v n) = lock_attempts n"
  "lock_attempts (n\<lparr>notifications := m\<rparr>) = lock_attempts n"
  by (simp_all add: lock_attempts_def)

lemmas example_defs =
  example_store_def lock_free_def lock_busy_def stale_item_def Notification_new_def

subsection \<open>When a clock read once per tick shows the deadline\<close>

lemma ticking_deadline:
  "(\<exists>r\<in>set (ticking st ok m). T \<le> tick r - st) \<longleftrightarrow> 0 < m \<and> unat T \<le> m"
proof
  assume "\<exists>r\<in>set (ticking st ok m). T \<le> tick r - st"
  then obtain i where i: "i < m" and le: "T \<le> (of_nat (Suc i) :: TickType_t)"
    by (auto simp: ticking_def)
  from le have "unat T \<le> unat (of_nat (Suc i) :: TickType_t)"
    by (simp add: word_le_nat_alt)
  also have "\<dots> \<le> Suc i"
    by (simp only: unat_of_nat mod_less_eq_dividend)
  finally show "0 < m \<and> unat T \<le> m"
    using i by simp
next
  assume m: "0 < m \<and> unat T \<le> m"
  show "\<exists>r\<in>set (ticking st ok m). T \<le> tick r - st"
  proof (cases "T = 0")
    case True
    let ?r = "\<lparr>take_ok = ok, tick = st + of_nat (Suc 0)\<rparr>"
    have "?r \<in> set (ticking st ok m)"
      unfolding ticking_def using m by (auto simp: image_iff intro!: bexI [of _ 0])
    with True show ?thesis by (metis word_zero_le)
  next
    case False
    then have pos: "0 < unat T" by (simp add: unat_gt_0)
    let ?r = "\<lparr>take_ok = ok, tick = st + of_nat (Suc (unat T - 1))\<rparr>"
    have "?r \<in> set (ticking st ok m)"
      unfolding ticking_def using pos m by (auto simp: image_iff intro!: bexI [of _ "unat T - 1"])
    moreover have "tick ?r - st = T"
      using pos by simp
    ultimately show ?thesis by (metis order_refl)
  qed
qed

lemma ticking_by_even_misses:
  "\<not> (\<exists>r\<in>set (ticking_by 10 st ok m). (- 1 :: TickType_t) \<le> tick r - st)"
proof
  assume "\<exists>r\<in>set (ticking_by 10 st ok m). (- 1 :: TickType_t) \<le> tick r - st"
  then obtain i where "(- 1 :: TickType_t) \<le> of_nat (10 * Suc i)"
    by (auto simp: ticking_by_def)
  then have eq: "(of_nat (10 * Suc i) :: TickType_t) = - 1"
    by (simp add: word_order.extremum_unique)
  have "even (of_nat (10 * Suc i) :: TickType_t)"
    by (simp only: even_of_nat) simp
  then have "even (- 1 :: TickType_t)"
    unfolding eq .
  then show False by simp
qed

subsection \<open>What a successful send leaves behind\<close>

lemma send_success:
  "send key d r raw n = (True, n1) \<Longrightarrow>
   mutex n \<noteq> nullptr \<and> take_ok r \<and> (\<exists>k. key = Some k) \<and>
   notifications n1 = (notifications n)(the key \<mapsto> NotificationItem_data raw d (tick r)) \<and>
   mutex n1 = mutex n \<and>
   rtos_log n1 = rtos_log n @ [xSemaphoreTake 100, xTaskGetTickCount, xSemaphoreGive]"
  by (auto simp: send_def Let_def split: if_splits)

lemma send_int_success:
  "send_int key s r raw n = (True, n1) \<Longrightarrow>
   mutex n \<noteq> nullptr \<and> take_ok r \<and> (\<exists>k. key = Some k) \<and>
   notifications n1 = (notifications n)(the key \<mapsto> NotificationItem_signal raw s (tick r)) \<and>
   mutex n1 = mutex n \<and>
   rtos_log n1 = rtos_log n @ [xSemaphoreTake 100, xTaskGetTickCount, xSemaphoreGive]"
  by (auto simp: send_int_def Let_def split: if_splits)

subsection \<open>The polling loops on a key that is present, and on one that is not\<close>

lemma consume_try_absent:
  "notifications n k = None \<Longrightarrow>
   consume_try k ok n =
     (None, if ok then call xSemaphoreGive (call (xSemaphoreTake 10) n)
            else call (xSemaphoreTake 10) n)"
  by (simp add: consume_try_def Let_def)

lemma consume_loop_absent:
  "notifications n k = None \<Longrightarrow>
   fst (consume_loop k T st rs n) = (if \<exists>r\<in>set rs. T \<le> tick r - st then Some nullptr else None) \<and>
   notifications (snd (consume_loop k T st rs n)) = notifications n \<and>
   mutex (snd (consume_loop k T st rs n)) = mutex n \<and>
   lock_attempts (snd (consume_loop k T st rs n)) =
     lock_attempts n + min (length rs) (Suc (length (takeWhile (\<lambda>r. \<not> T \<le> tick r - st) rs)))"
proof (induction rs arbitrary: n)
  case Nil
  then show ?case by simp
next
  case (Cons r rs)
  show ?case
  proof (cases "T \<le> tick r - st")
    case True
    with Cons.prems show ?thesis
      by (simp add: consume_try_absent Let_def)
  next
    case False
    let ?n' = "call (vTaskDelay 1) (call xTaskGetTickCount (snd (consume_try k (take_ok r) n)))"
    have abs: "notifications ?n' k = None"
      using Cons.prems by (simp add: consume_try_absent)
    have step: "consume_loop k T st (r # rs) n = consume_loop k T st rs ?n'"
      using Cons.prems False by (simp add: consume_try_absent Let_def)
    show ?thesis
      unfolding step using Cons.IH [OF abs] False Cons.prems
      by (simp add: consume_try_absent)
  qed
qed

lemma consume_present:
  assumes "mutex n \<noteq> nullptr" and "notifications n k = Some item" and "take_ok q"
  shows "fst (consume (Some k) T st (q # qs) n) = Some (data item)"
    and "notifications (snd (consume (Some k) T st (q # qs) n)) = (notifications n)(k := None)"
    and "mutex (snd (consume (Some k) T st (q # qs) n)) = mutex n"
  using assms by (simp_all add: consume_def consume_try_def Let_def)

lemma consume_zero_absent:
  assumes "mutex n \<noteq> nullptr" and "notifications n k = None"
  shows "fst (consume (Some k) 0 st (q # qs) n) = Some nullptr"
    and "notifications (snd (consume (Some k) 0 st (q # qs) n)) = notifications n"
  using assms by (simp_all add: consume_def consume_try_def Let_def)

lemma send_consume_consume:
  assumes "send (Some k) p r raw n = (True, n1)"
    and "take_ok q"
    and "consume (Some k) T st (q # qs) n1 = (res, n2)"
    and "consume (Some k) 0 st' (q' # qs') n2 = (res', n3)"
  shows "res = Some p \<and> notifications n2 = (notifications n)(k := None) \<and>
         res' = Some nullptr \<and> notifications n3 = notifications n2"
proof -
  from send_success [OF assms(1)]
  have m: "mutex n1 \<noteq> nullptr"
    and e: "notifications n1 k = Some (NotificationItem_data raw p (tick r))"
    and ns: "notifications n1 = (notifications n)(k \<mapsto> NotificationItem_data raw p (tick r))"
    by simp_all
  from consume_present [OF m e assms(2), of T st qs] assms(3)
  have r1: "res = Some p" and n2: "notifications n2 = (notifications n1)(k := None)"
    and m2: "mutex n2 \<noteq> nullptr"
    using m by (simp_all add: NotificationItem_data_def)
  from n2 have a: "notifications n2 k = None" by simp
  from consume_zero_absent [OF m2 a, of st' q' qs'] assms(4)
  have "res' = Some nullptr" and "notifications n3 = notifications n2" by simp_all
  with r1 n2 ns show ?thesis by simp
qed

lemma signal_loop_absent:
  "notifications n k = None \<Longrightarrow>
   fst (signal_loop k T st rs n) = (if \<exists>r\<in>set rs. T \<le> tick r - st then Some (- 1) else None) \<and>
   notifications (snd (signal_loop k T st rs n)) = notifications n"
proof (induction rs arbitrary: n)
  case Nil
  then show ?case by simp
next
  case (Cons r rs)
  show ?case
  proof (cases "T \<le> tick r - st")
    case True
    with Cons.prems show ?thesis
      by (simp add: signal_try_def Let_def)
  next
    case False
    let ?n' = "call (vTaskDelay 1) (call xTaskGetTickCount (snd (signal_try k (take_ok r) n)))"
    have abs: "notifications ?n' k = None"
      using Cons.prems by (simp add: signal_try_def Let_def)
    have step: "signal_loop k T st (r # rs) n = signal_loop k T st rs ?n'"
      using Cons.prems False by (simp add: signal_try_def Let_def)
    show ?thesis
      unfolding step using Cons.IH [OF abs] False Cons.prems
      by (simp add: signal_try_def Let_def)
  qed
qed

lemma signal_present:
  assumes "mutex n \<noteq> nullptr" and "notifications n k = Some item" and "take_ok q"
  shows "fst (signal (Some k) T st (q # qs) n) = Some (signal_val item)"
    and "notifications (snd (signal (Some k) T st (q # qs) n)) = (notifications n)(k := None)"
    and "mutex (snd (signal (Some k) T st (q # qs) n)) = mutex n"
  using assms by (simp_all add: signal_def signal_try_def Let_def)

lemma has_null_mutex: "mutex n = nullptr \<Longrightarrow> has key ok n = (False, n)"
  by (simp add: has_def)

lemma wait_loop_null_mutex:
  "mutex n = nullptr \<Longrightarrow>
   fst (wait_loop k T st rs n) = (if \<exists>r\<in>set rs. T \<le> tick r - st then Some False else None) \<and>
   notifications (snd (wait_loop k T st rs n)) = notifications n \<and>
   mutex (snd (wait_loop k T st rs n)) = nullptr \<and>
   lock_attempts (snd (wait_loop k T st rs n)) = lock_attempts n"
proof (induction rs arbitrary: n)
  case Nil
  then show ?case by simp
next
  case (Cons r rs)
  show ?case
  proof (cases "T \<le> tick r - st")
    case True
    with Cons.prems show ?thesis
      by (simp add: has_null_mutex Let_def)
  next
    case False
    let ?n' = "call (vTaskDelay 10) (call xTaskGetTickCount n)"
    have m: "mutex ?n' = nullptr"
      using Cons.prems by simp
    have step: "wait_loop k T st (r # rs) n = wait_loop k T st rs ?n'"
      using Cons.prems False by (simp add: has_null_mutex Let_def)
    show ?thesis
      unfolding step using Cons.IH [OF m] False by simp
  qed
qed

subsection \<open>Send, then consume\<close>

text \<open>
  Claim C1. On a store whose mutex exists, for every non-null key \<open>k\<close> and payload
  pointer \<open>p\<close>: after a successful \<open>send k p\<close>, a \<open>consume k T\<close> that follows at once
  (so that its first attempt on the lock succeeds) returns \<open>p\<close> for every timeout \<open>T\<close>
  and removes the entry under \<open>k\<close>, leaving the other keys as they were before the send;
  a second \<open>consume k 0\<close> then returns \<open>nullptr\<close>, whatever the lock does, and changes
  nothing in the map.
\<close>

theorem send_then_consume:
  assumes "send (Some k) p r raw n = (True, n1)"
    and "take_ok q"
    and "consume (Some k) T st (q # qs) n1 = (res, n2)"
    and "consume (Some k) 0 st' (q' # qs') n2 = (res', n3)"
  shows "res = Some p \<and> notifications n2 = (notifications n)(k := None) \<and>
         res' = Some nullptr \<and> notifications n3 = notifications n2"
  using assms by (rule send_consume_consume)

theorem send_then_consume_witness:
  "send (Some ''a'') 42 (lock_free 7) stale_item example_store =
     (True, snd (send (Some ''a'') 42 (lock_free 7) stale_item example_store)) \<and>
   take_ok (lock_free 7) \<and>
   fst (consume (Some ''a'') 0 7 [lock_free 7]
     (snd (send (Some ''a'') 42 (lock_free 7) stale_item example_store))) = Some 42 \<and>
   fst (consume (Some ''a'') 0 8 [lock_busy 8]
     (snd (consume (Some ''a'') 0 7 [lock_free 7]
       (snd (send (Some ''a'') 42 (lock_free 7) stale_item example_store))))) = Some nullptr"
proof -
  let ?n1 = "snd (send (Some ''a'') 42 (lock_free 7) stale_item example_store)"
  let ?c1 = "consume (Some ''a'') 0 7 [lock_free 7] ?n1"
  let ?c2 = "consume (Some ''a'') 0 8 [lock_busy 8] (snd ?c1)"
  have s: "send (Some ''a'') 42 (lock_free 7) stale_item example_store = (True, ?n1)"
    by (simp add: send_def example_defs Let_def)
  have q: "take_ok (lock_free 7)"
    by (simp add: lock_free_def)
  have c1: "?c1 = (fst ?c1, snd ?c1)" and c2: "?c2 = (fst ?c2, snd ?c2)"
    by simp_all
  from send_then_consume [OF s q c1 c2] s q show ?thesis
    by simp
qed

text \<open>
  Claim C7. For every key \<open>k\<close> and payloads \<open>p1\<close>, \<open>p2\<close>: after two successful sends to
  \<open>k\<close> with no consume in between, the map holds under \<open>k\<close> the item built from \<open>p2\<close>
  and is otherwise the map from before the first send; the second send has added no key
  and \<open>count\<close> is what it was after the first.
  A consume that follows returns \<open>p2\<close> and leaves no entry under \<open>k\<close>, so that the next
  consume returns \<open>nullptr\<close>: \<open>p1\<close> is not retrievable.
\<close>

theorem second_send_replaces:
  assumes "send (Some k) p1 r1 raw1 n = (True, n1)"
    and "send (Some k) p2 r2 raw2 n1 = (True, n2)"
    and "take_ok q"
    and "consume (Some k) T st (q # qs) n2 = (res, n3)"
    and "consume (Some k) 0 st' (q' # qs') n3 = (res', n4)"
  shows "notifications n2 = (notifications n)(k \<mapsto> NotificationItem_data raw2 p2 (tick r2)) \<and>
         dom (notifications n2) = dom (notifications n1) \<and>
         fst (count ok n2) = fst (count ok n1) \<and>
         res = Some p2 \<and> notifications n3 k = None \<and> res' = Some nullptr"
proof -
  from send_success [OF assms(1)]
  have ns1: "notifications n1 = (notifications n)(k \<mapsto> NotificationItem_data raw1 p1 (tick r1))"
    by simp
  from send_success [OF assms(2)]
  have ns2: "notifications n2 = (notifications n1)(k \<mapsto> NotificationItem_data raw2 p2 (tick r2))"
    by simp
  from send_consume_consume [OF assms(2) assms(3) assms(4) assms(5)]
  have c: "res = Some p2" "notifications n3 = (notifications n1)(k := None)" "res' = Some nullptr"
    by simp_all
  from ns1 ns2
  have "notifications n2 = (notifications n)(k \<mapsto> NotificationItem_data raw2 p2 (tick r2))"
    by simp
  moreover from ns1 ns2 have d: "dom (notifications n2) = dom (notifications n1)"
    by auto
  moreover from send_success [OF assms(2)] d have "fst (count ok n2) = fst (count ok n1)"
    by (simp add: count_def Let_def)
  ultimately show ?thesis using c by simp
qed

theorem second_send_replaces_witness:
  "fst (send (Some ''a'') 42 (lock_free 7) stale_item example_store) \<and>
   fst (send (Some ''a'') 43 (lock_free 8) stale_item
     (snd (send (Some ''a'') 42 (lock_free 7) stale_item example_store))) \<and>
   take_ok (lock_free 9) \<and>
   fst (consume (Some ''a'') 5 9 [lock_free 9]
     (snd (send (Some ''a'') 43 (lock_free 8) stale_item
       (snd (send (Some ''a'') 42 (lock_free 7) stale_item example_store))))) = Some 43 \<and>
   fst (consume (Some ''a'') 0 9 [lock_free 9]
     (snd (consume (Some ''a'') 5 9 [lock_free 9]
       (snd (send (Some ''a'') 43 (lock_free 8) stale_item
         (snd (send (Some ''a'') 42 (lock_free 7) stale_item example_store))))))) = Some nullptr"
proof -
  let ?s1 = "send (Some ''a'') 42 (lock_free 7) stale_item example_store"
  let ?s2 = "send (Some ''a'') 43 (lock_free 8) stale_item (snd ?s1)"
  let ?c1 = "consume (Some ''a'') 5 9 [lock_free 9] (snd ?s2)"
  let ?c2 = "consume (Some ''a'') 0 9 [lock_free 9] (snd ?c1)"
  have s1: "?s1 = (True, snd ?s1)"
    by (simp add: send_def example_defs Let_def)
  have s2: "?s2 = (True, snd ?s2)"
    by (simp add: send_def example_defs Let_def)
  have q: "take_ok (lock_free 9)"
    by (simp add: lock_free_def)
  have c1: "?c1 = (fst ?c1, snd ?c1)" and c2: "?c2 = (fst ?c2, snd ?c2)"
    by simp_all
  have f1: "fst ?s1" using s1 by (metis fst_conv)
  have f2: "fst ?s2" using s2 by (metis fst_conv)
  from second_send_replaces [OF s1 s2 q c1 c2] f1 f2 q show ?thesis
    by simp
qed

text \<open>
  Claim C10. For every key \<open>k\<close>, on a store whose mutex exists and with the lock free:
  \<open>send k nullptr\<close> succeeds and stores an entry whose \<open>data\<close> is the null pointer; the
  consume that follows returns \<open>nullptr\<close> and removes the entry; and that result is the
  one a further \<open>consume k 0\<close>, now on a missing key, returns. A stored null payload and
  absence are the same value at the interface.
\<close>

theorem null_payload_like_absent:
  assumes "mutex n \<noteq> nullptr" and "take_ok r" and "take_ok q"
  shows "fst (send (Some k) nullptr r raw n) \<and>
         map_option data (notifications (snd (send (Some k) nullptr r raw n)) k) = Some nullptr \<and>
         fst (consume (Some k) T st (q # qs) (snd (send (Some k) nullptr r raw n))) = Some nullptr \<and>
         notifications (snd (consume (Some k) T st (q # qs) (snd (send (Some k) nullptr r raw n)))) k = None \<and>
         fst (consume (Some k) 0 st' (q' # qs')
               (snd (consume (Some k) T st (q # qs) (snd (send (Some k) nullptr r raw n)))))
           = fst (consume (Some k) T st (q # qs) (snd (send (Some k) nullptr r raw n)))"
proof -
  let ?s = "send (Some k) nullptr r raw n"
  let ?c1 = "consume (Some k) T st (q # qs) (snd ?s)"
  let ?c2 = "consume (Some k) 0 st' (q' # qs') (snd ?c1)"
  have s: "?s = (True, snd ?s)"
    using assms(1,2) by (simp add: send_def Let_def)
  have c1: "?c1 = (fst ?c1, snd ?c1)" and c2: "?c2 = (fst ?c2, snd ?c2)"
    by simp_all
  have f: "fst ?s" using s by (metis fst_conv)
  from send_success [OF s]
  have e: "map_option data (notifications (snd ?s) k) = Some nullptr"
    by (simp add: NotificationItem_data_def)
  from send_consume_consume [OF s assms(3) c1 c2]
  have "fst ?c1 = Some nullptr" "notifications (snd ?c1) k = None" "fst ?c2 = Some nullptr"
    by simp_all
  with f e show ?thesis by simp
qed

theorem null_payload_like_absent_witness:
  "mutex example_store \<noteq> nullptr \<and> take_ok (lock_free 7) \<and>
   fst (send (Some ''a'') nullptr (lock_free 7) stale_item example_store) \<and>
   fst (consume (Some ''a'') 100 7 [lock_free 7]
     (snd (send (Some ''a'') nullptr (lock_free 7) stale_item example_store))) = Some nullptr \<and>
   notifications (snd (consume (Some ''a'') 100 7 [lock_free 7]
     (snd (send (Some ''a'') nullptr (lock_free 7) stale_item example_store)))) ''a'' = None"
proof -
  have m: "mutex example_store \<noteq> nullptr"
    by (simp add: example_defs)
  have q: "take_ok (lock_free 7)"
    by (simp add: lock_free_def)
  from null_payload_like_absent [OF m q q, of "''a''" stale_item 100 7 "[]"] m q
  show ?thesis by simp
qed

subsection \<open>An entry made by the integer overload, read through \<open>consume\<close>\<close>

text \<open>
  Claim C2 says that after \<open>send_int k v\<close> a \<open>consume k 0\<close> yields no pointer. The code
  looks the key up without regard to the constructor that made the entry, so it finds
  the entry, erases it and returns its \<open>data\<close> member, which \<open>NotificationItem(int)\<close>
  never wrote: the caller receives whatever the storage held, here \<open>0x3FFB0010\<close>, and
  the signal \<open>5\<close> is lost.
\<close>

theorem consume_of_signal_entry:
  "fst (send_int (Some ''a'') 5 (lock_free 7) stale_item example_store) \<and>
   consume (Some ''a'') 0 7 [lock_free 7]
     (snd (send_int (Some ''a'') 5 (lock_free 7) stale_item example_store)) =
   (Some 0x3FFB0010,
    \<lparr>notifications = Map.empty, mutex = 1,
     rtos_log = [xSemaphoreTake 100, xTaskGetTickCount, xSemaphoreGive,
                 xTaskGetTickCount, xSemaphoreTake 10, xSemaphoreGive]\<rparr>)"
  by (simp add: send_int_def consume_def consume_try_def example_defs NotificationItem_signal_def
      call_def erase_def emplace_def Let_def)

subsection \<open>Existence checks\<close>

text \<open>
  Claim C3. For every key and every store, \<open>has\<close> and \<open>hasSignal\<close> give the same result
  and leave the same store behind: both are one locked lookup of the key, true exactly
  when the lock was obtained and the map holds an entry under the key, whichever
  constructor made that entry.
\<close>

theorem has_hasSignal_same:
  "has key ok n = hasSignal key ok n \<and>
   fst (has key ok n) =
     (case key of None \<Rightarrow> False
      | Some k \<Rightarrow> mutex n \<noteq> nullptr \<and> ok \<and> notifications n k \<noteq> None)"
  by (simp add: has_def hasSignal_def Let_def split: option.splits)

theorem has_hasSignal_same_witness:
  "has (Some ''a'') True
     \<lparr>notifications = [''a'' \<mapsto> \<lparr>data = 0, signal_val = 7, timestamp = 0\<rparr>], mutex = 1, rtos_log = []\<rparr>
   = hasSignal (Some ''a'') True
     \<lparr>notifications = [''a'' \<mapsto> \<lparr>data = 0, signal_val = 7, timestamp = 0\<rparr>], mutex = 1, rtos_log = []\<rparr>
   \<and> fst (has (Some ''a'') True
     \<lparr>notifications = [''a'' \<mapsto> \<lparr>data = 0, signal_val = 7, timestamp = 0\<rparr>], mutex = 1, rtos_log = []\<rparr>)"
  using has_hasSignal_same [of "Some ''a''" True
     "\<lparr>notifications = [''a'' \<mapsto> \<lparr>data = 0, signal_val = 7, timestamp = 0\<rparr>], mutex = 1, rtos_log = []\<rparr>"]
  by (simp add: has_def hasSignal_def Let_def)

subsection \<open>Null keys\<close>

text \<open>
  Claim C4, as the code has it. Every operation that takes a key (both \<open>send\<close>
  overloads, \<open>consume\<close>, \<open>signal\<close>, \<open>has\<close>, \<open>hasSignal\<close>, \<open>remove\<close>, \<open>wait\<close>) rejects a
  null key at once: it returns \<open>false\<close>, \<open>nullptr\<close> or \<open>-1\<close> and the object is the one it
  was given, map and call log alike, so no lock was taken and no delay made. The three
  polling operations do so without a single poll. Nothing is said of an empty string:
  it is a key like any other.
\<close>

theorem null_key_rejected:
  "send None d r raw n = (False, n) \<and>
   send_int None s r raw n = (False, n) \<and>
   consume None T st rs n = (Some nullptr, n) \<and>
   signal None T st rs n = (Some (- 1), n) \<and>
   has None ok n = (False, n) \<and>
   hasSignal None ok n = (False, n) \<and>
   remove None ok n = (False, n) \<and>
   wait None T st rs n = (Some False, n)"
  by (simp add: send_def send_int_def consume_def signal_def has_def hasSignal_def
      remove_def wait_def)

theorem null_key_rejected_witness:
  "send None 42 (lock_free 7) stale_item example_store = (False, example_store) \<and>
   wait None 1000 0 [] example_store = (Some False, example_store) \<and>
   rtos_log example_store = []"
  using null_key_rejected [of 42 "lock_free 7" stale_item example_store 0 1000 0 "[]" True]
  by (simp add: example_defs)

text \<open>
  Claim C4 as stated fails for the empty key: \<open>send\<close> with the key \<^verbatim>\<open>""\<close> takes the
  lock, stores the payload under the empty string and returns \<open>true\<close>.
\<close>

theorem empty_key_accepted:
  "send (Some []) 42 (lock_free 7) stale_item example_store =
     (True, \<lparr>notifications = [[] \<mapsto> \<lparr>data = 42, signal_val = 85, timestamp = 7\<rparr>], mutex = 1,
             rtos_log = [xSemaphoreTake 100, xTaskGetTickCount, xSemaphoreGive]\<rparr>) \<and>
   send (Some []) 42 (lock_free 7) stale_item example_store \<noteq> (False, example_store)"
  by (simp add: send_def example_defs call_def erase_def emplace_def NotificationItem_data_def Let_def)

subsection \<open>A store whose mutex could not be created\<close>

text \<open>
  When \<open>mutex\<close> is null, both \<open>send\<close> overloads, \<open>consume\<close>, \<open>signal\<close>, \<open>has\<close>,
  \<open>hasSignal\<close>, \<open>remove\<close>, \<open>clear\<close> and \<open>count\<close> return \<open>false\<close>, \<open>nullptr\<close>, \<open>-1\<close> or \<open>0\<close>
  at once and leave the object untouched. \<open>wait\<close> never returns \<open>true\<close>, never attempts
  the lock and never changes the map, but it returns \<open>false\<close> only at the first poll that
  reads a tick count at least the timeout past the start.
\<close>

lemma null_mutex_operations:
  assumes "mutex n = nullptr"
  shows "send key d r raw n = (False, n) \<and>
         send_int key s r raw n = (False, n) \<and>
         consume key T st rs n = (Some nullptr, n) \<and>
         signal key T st rs n = (Some (- 1), n) \<and>
         has key ok n = (False, n) \<and>
         hasSignal key ok n = (False, n) \<and>
         remove key ok n = (False, n) \<and>
         clear ok n = n \<and>
         count ok n = (0, n) \<and>
         fst (wait key T st rs n) =
           (if key = None \<or> (\<exists>r\<in>set rs. T \<le> tick r - st) then Some False else None) \<and>
         notifications (snd (wait key T st rs n)) = notifications n \<and>
         lock_attempts (snd (wait key T st rs n)) = lock_attempts n \<and>
         fst (wait key T st (ticking st ok m) n) =
           (if key = None \<or> (0 < m \<and> unat T \<le> m) then Some False else None)"
proof -
  have m: "mutex (call xTaskGetTickCount n) = nullptr"
    using assms by simp
  have w: "fst (wait key T st rs n) =
           (if key = None \<or> (\<exists>r\<in>set rs. T \<le> tick r - st) then Some False else None) \<and>
         notifications (snd (wait key T st rs n)) = notifications n \<and>
         lock_attempts (snd (wait key T st rs n)) = lock_attempts n"
    using wait_loop_null_mutex [OF m, of "the key" T st rs]
    by (simp add: wait_def)
  have rest: "send key d r raw n = (False, n) \<and>
         send_int key s r raw n = (False, n) \<and>
         consume key T st rs n = (Some nullptr, n) \<and>
         signal key T st rs n = (Some (- 1), n) \<and>
         has key ok n = (False, n) \<and>
         hasSignal key ok n = (False, n) \<and>
         remove key ok n = (False, n) \<and>
         clear ok n = n \<and>
         count ok n = (0, n)"
    using assms
    by (simp add: send_def send_int_def consume_def signal_def has_def hasSignal_def
        remove_def clear_def count_def)
  have t: "fst (wait key T st (ticking st ok m) n) =
           (if key = None \<or> (0 < m \<and> unat T \<le> m) then Some False else None)"
    using wait_loop_null_mutex [OF m, of "the key" T st "ticking st ok m"]
    by (simp add: wait_def ticking_deadline)
  from rest w t show ?thesis by simp
qed

text \<open>
  Claim C5 says that with a null \<open>mutex\<close> every operation returns failure and never
  touches the map, \<open>wait\<close> included, for every key and every timeout. The operations
  that test the mutex do. \<open>wait\<close> tests the key only (line 228): it polls \<open>has\<close>, which
  fails, and sleeps in \<open>vTaskDelay\<close> until a poll reads a tick count at least the timeout
  past the start. With the timeout \<open>0xFFFFFFFF\<close>, the default of the header, and polls
  ten ticks apart, the elapsed count is even at every poll and never reaches it: for every
  key and every number of polls \<open>wait\<close> has not returned. With the timeout 10, after a
  poll that reads 3 ticks the call is in \<open>vTaskDelay\<close>, where \<open>has\<close> on the same store
  has returned \<open>false\<close> at once.
\<close>

theorem wait_null_mutex_keeps_polling:
  "fst (wait (Some k) (- 1) st (ticking_by 10 st ok m) (Notification_new nullptr)) = None \<and>
   wait (Some ''a'') 10 0 [lock_free 3] (Notification_new nullptr) =
     (None, \<lparr>notifications = Map.empty, mutex = nullptr,
             rtos_log = [xTaskGetTickCount, xTaskGetTickCount, vTaskDelay 10]\<rparr>) \<and>
   has (Some ''a'') True (Notification_new nullptr) = (False, Notification_new nullptr)"
proof -
  have m: "mutex (call xTaskGetTickCount (Notification_new nullptr)) = nullptr"
    by (simp add: Notification_new_def)
  have a: "fst (wait (Some k) (- 1) st (ticking_by 10 st ok m) (Notification_new nullptr)) = None"
    using wait_loop_null_mutex [OF m, of k "- 1" st "ticking_by 10 st ok m"]
      ticking_by_even_misses [of st ok m]
    by (simp add: wait_def)
  have b: "wait (Some ''a'') 10 0 [lock_free 3] (Notification_new nullptr) =
     (None, \<lparr>notifications = Map.empty, mutex = nullptr,
             rtos_log = [xTaskGetTickCount, xTaskGetTickCount, vTaskDelay 10]\<rparr>)"
    by (simp add: wait_def has_def Let_def call_def example_defs)
  have c: "has (Some ''a'') True (Notification_new nullptr) = (False, Notification_new nullptr)"
    by (simp add: has_def Notification_new_def)
  from a b c show ?thesis by simp
qed

subsection \<open>The value \<open>signal\<close> returns for nothing\<close>

text \<open>
  Claim C6, as the code has it. On a store whose mutex exists and with the lock free,
  a signal \<open>v\<close> stored by \<open>send_int k v\<close> comes back from \<open>signal k\<close> as \<open>v\<close>, for every
  \<open>v\<close>; on a key that is not in the map \<open>signal\<close> returns \<open>-1\<close> once the timeout has
  passed; so the result for a stored signal differs from the result for absence exactly
  when \<open>v\<close> is not \<open>-1\<close>.
\<close>

theorem signal_sentinel:
  assumes "mutex n \<noteq> nullptr" and "take_ok r" and "take_ok q"
  shows "fst (signal (Some k) T st (q # qs) (snd (send_int (Some k) v r raw n))) = Some v \<and>
         (notifications n k = None \<longrightarrow>
            fst (signal (Some k) T st rs n) =
              (if \<exists>r\<in>set rs. T \<le> tick r - st then Some (- 1) else None)) \<and>
         (v \<noteq> - 1 \<longrightarrow>
            fst (signal (Some k) T st (q # qs) (snd (send_int (Some k) v r raw n))) \<noteq> Some (- 1))"
proof -
  let ?s = "send_int (Some k) v r raw n"
  have s: "?s = (True, snd ?s)"
    using assms(1,2) by (simp add: send_int_def Let_def)
  from send_int_success [OF s]
  have m: "mutex (snd ?s) \<noteq> nullptr"
    and e: "notifications (snd ?s) k = Some (NotificationItem_signal raw v (tick r))"
    by simp_all
  from signal_present(1) [OF m e assms(3), of T st qs]
  have a: "fst (signal (Some k) T st (q # qs) (snd ?s)) = Some v"
    by (simp add: NotificationItem_signal_def)
  have b: "notifications n k = None \<longrightarrow>
            fst (signal (Some k) T st rs n) =
              (if \<exists>r\<in>set rs. T \<le> tick r - st then Some (- 1) else None)"
  proof
    assume "notifications n k = None"
    then have "notifications (call xTaskGetTickCount n) k = None" by simp
    from signal_loop_absent [OF this, of T st rs] assms(1)
    show "fst (signal (Some k) T st rs n) =
              (if \<exists>r\<in>set rs. T \<le> tick r - st then Some (- 1) else None)"
      by (simp add: signal_def)
  qed
  from a b show ?thesis by simp
qed

theorem signal_sentinel_witness:
  "mutex example_store \<noteq> nullptr \<and> take_ok (lock_free 7) \<and>
   notifications example_store ''a'' = None \<and> (5 :: c_int) \<noteq> - 1 \<and>
   fst (signal (Some ''a'') 3 7 [lock_free 7]
     (snd (send_int (Some ''a'') 5 (lock_free 7) stale_item example_store))) = Some 5 \<and>
   fst (signal (Some ''a'') 3 7 [lock_free 8, lock_free 10] example_store) = Some (- 1)"
proof -
  have m: "mutex example_store \<noteq> nullptr"
    by (simp add: example_defs)
  have q: "take_ok (lock_free 7)"
    by (simp add: lock_free_def)
  from signal_sentinel [OF m q q, of "''a''" 3 7 "[]" 5 stale_item "[lock_free 8, lock_free 10]"] m q
  show ?thesis by (simp add: example_defs)
qed

text \<open>
  Claim C6 as stated fails at \<open>-1\<close>: \<open>send_int\<close> accepts it, and \<open>signal\<close> then returns
  \<open>-1\<close> for the stored signal, the value it returns on an empty store.
\<close>

theorem stored_minus_one_like_absent:
  "fst (send_int (Some ''a'') (- 1) (lock_free 7) stale_item example_store) \<and>
   fst (signal (Some ''a'') 0 7 [lock_free 7]
     (snd (send_int (Some ''a'') (- 1) (lock_free 7) stale_item example_store))) = Some (- 1) \<and>
   fst (signal (Some ''a'') 0 7 [lock_free 7] example_store) = Some (- 1)"
  by (simp add: send_int_def signal_def signal_try_def example_defs NotificationItem_signal_def Let_def)

subsection \<open>The lock is not obtained\<close>

text \<open>
  Claim C8. On a store whose mutex exists, for every key \<open>k\<close> and payload: when the
  lock attempt of \<open>send\<close> fails, \<open>send\<close> returns \<open>false\<close> and the object differs from the
  one it was given by one logged \<open>xSemaphoreTake\<close> of 100 ms only, the map being
  unchanged; likewise for the integer overload, \<open>has\<close>, \<open>hasSignal\<close>, \<open>remove\<close>, \<open>clear\<close>
  and \<open>count\<close> (which returns \<open>0\<close>). Whether the lock is obtained or not, each of these
  operations makes exactly one lock attempt; for \<open>send\<close> and \<open>has\<close> the calls into the
  kernel are listed in full: one \<open>xSemaphoreTake\<close> of 100 ms, and after a success the
  work under the lock and one \<open>xSemaphoreGive\<close>.
\<close>

theorem lock_failure_single_attempt:
  assumes "mutex n \<noteq> nullptr"
  shows "(\<not> take_ok r \<longrightarrow>
            send (Some k) d r raw n = (False, call (xSemaphoreTake 100) n) \<and>
            send_int (Some k) s r raw n = (False, call (xSemaphoreTake 100) n) \<and>
            notifications (snd (send (Some k) d r raw n)) = notifications n) \<and>
         (\<not> ok \<longrightarrow>
            has (Some k) ok n = (False, call (xSemaphoreTake 100) n) \<and>
            hasSignal (Some k) ok n = (False, call (xSemaphoreTake 100) n) \<and>
            remove (Some k) ok n = (False, call (xSemaphoreTake 100) n) \<and>
            clear ok n = call (xSemaphoreTake 100) n \<and>
            count ok n = (0, call (xSemaphoreTake 100) n)) \<and>
         lock_attempts (snd (send (Some k) d r raw n)) = Suc (lock_attempts n) \<and>
         lock_attempts (snd (send_int (Some k) s r raw n)) = Suc (lock_attempts n) \<and>
         lock_attempts (snd (has (Some k) ok n)) = Suc (lock_attempts n) \<and>
         lock_attempts (snd (hasSignal (Some k) ok n)) = Suc (lock_attempts n) \<and>
         lock_attempts (snd (remove (Some k) ok n)) = Suc (lock_attempts n) \<and>
         lock_attempts (clear ok n) = Suc (lock_attempts n) \<and>
         lock_attempts (snd (count ok n)) = Suc (lock_attempts n) \<and>
         rtos_log (snd (send (Some k) d r raw n)) = rtos_log n @
           (if take_ok r then [xSemaphoreTake 100, xTaskGetTickCount, xSemaphoreGive]
            else [xSemaphoreTake 100]) \<and>
         rtos_log (snd (has (Some k) ok n)) = rtos_log n @
           (if ok then [xSemaphoreTake 100, xSemaphoreGive] else [xSemaphoreTake 100])"
proof -
  have fail: "\<not> take_ok r \<longrightarrow>
            send (Some k) d r raw n = (False, call (xSemaphoreTake 100) n) \<and>
            send_int (Some k) s r raw n = (False, call (xSemaphoreTake 100) n) \<and>
            notifications (snd (send (Some k) d r raw n)) = notifications n"
    using assms by (simp add: send_def send_int_def Let_def)
  have fail': "\<not> ok \<longrightarrow>
            has (Some k) ok n = (False, call (xSemaphoreTake 100) n) \<and>
            hasSignal (Some k) ok n = (False, call (xSemaphoreTake 100) n) \<and>
            remove (Some k) ok n = (False, call (xSemaphoreTake 100) n) \<and>
            clear ok n = call (xSemaphoreTake 100) n \<and>
            count ok n = (0, call (xSemaphoreTake 100) n)"
    using assms by (simp add: has_def hasSignal_def remove_def clear_def count_def Let_def)
  have a1: "lock_attempts (snd (send (Some k) d r raw n)) = Suc (lock_attempts n)"
    using assms by (simp add: send_def Let_def)
  have a2: "lock_attempts (snd (send_int (Some k) s r raw n)) = Suc (lock_attempts n)"
    using assms by (simp add: send_int_def Let_def)
  have a3: "lock_attempts (snd (has (Some k) ok n)) = Suc (lock_attempts n)"
    using assms by (simp add: has_def Let_def)
  have a4: "lock_attempts (snd (hasSignal (Some k) ok n)) = Suc (lock_attempts n)"
    using assms by (simp add: hasSignal_def Let_def)
  have a5: "lock_attempts (snd (remove (Some k) ok n)) = Suc (lock_attempts n)"
    using assms by (simp add: remove_def Let_def)
  have a6: "lock_attempts (clear ok n) = Suc (lock_attempts n)"
    using assms by (simp add: clear_def Let_def)
  have a7: "lock_attempts (snd (count ok n)) = Suc (lock_attempts n)"
    using assms by (simp add: count_def Let_def)
  have l1: "rtos_log (snd (send (Some k) d r raw n)) = rtos_log n @
           (if take_ok r then [xSemaphoreTake 100, xTaskGetTickCount, xSemaphoreGive]
            else [xSemaphoreTake 100])"
    using assms by (simp add: send_def Let_def)
  have l2: "rtos_log (snd (has (Some k) ok n)) = rtos_log n @
           (if ok then [xSemaphoreTake 100, xSemaphoreGive] else [xSemaphoreTake 100])"
    using assms by (simp add: has_def Let_def)
  from fail fail' a1 a2 a3 a4 a5 a6 a7 l1 l2 show ?thesis by simp
qed

theorem lock_failure_single_attempt_witness:
  "mutex example_store \<noteq> nullptr \<and> \<not> take_ok (lock_busy 7) \<and>
   send (Some ''a'') 42 (lock_busy 7) stale_item example_store =
     (False, \<lparr>notifications = Map.empty, mutex = 1, rtos_log = [xSemaphoreTake 100]\<rparr>) \<and>
   has (Some ''a'') False example_store =
     (False, \<lparr>notifications = Map.empty, mutex = 1, rtos_log = [xSemaphoreTake 100]\<rparr>) \<and>
   lock_attempts (snd (send (Some ''a'') 42 (lock_free 7) stale_item example_store)) = 1"
proof -
  have m: "mutex example_store \<noteq> nullptr"
    by (simp add: example_defs)
  from lock_failure_single_attempt [OF m, of "lock_busy 7" "''a''" 42 stale_item 0 False]
    lock_failure_single_attempt [OF m, of "lock_free 7" "''a''" 42 stale_item 0 False] m
  show ?thesis by (simp add: example_defs call_def lock_attempts_def)
qed

subsection \<open>Consuming a key that is not there\<close>

text \<open>
  Claim C9. On a store whose mutex exists, for every key \<open>k\<close> with no entry in the map
  and every timeout \<open>T\<close>: \<open>consume k T\<close> returns exactly when a poll reads a tick count
  whose distance from the start (in 32-bit tick arithmetic) is at least \<open>T\<close>, and then it
  returns \<open>nullptr\<close>; it does so at the first such poll, which the number of lock
  attempts shows (one per poll up to and including that one), and not before; while no
  poll has read such a tick count the call is still polling. The map is unchanged. With
  a clock read once per tick the call returns at poll number \<open>T\<close> (the first poll when
  \<open>T\<close> is 0): it terminates for every \<open>T\<close>, after \<open>T\<close> ticks and not earlier.
\<close>

theorem consume_absent_key:
  assumes "mutex n \<noteq> nullptr" and "notifications n k = None"
  shows "fst (consume (Some k) T st rs n) =
           (if \<exists>r\<in>set rs. T \<le> tick r - st then Some nullptr else None) \<and>
         notifications (snd (consume (Some k) T st rs n)) = notifications n \<and>
         lock_attempts (snd (consume (Some k) T st rs n)) =
           lock_attempts n + min (length rs) (Suc (length (takeWhile (\<lambda>r. \<not> T \<le> tick r - st) rs))) \<and>
         fst (consume (Some k) T st (ticking st ok m) n) =
           (if 0 < m \<and> unat T \<le> m then Some nullptr else None)"
proof -
  have a: "notifications (call xTaskGetTickCount n) k = None"
    using assms(2) by simp
  have g: "fst (consume (Some k) T st rs n) =
           (if \<exists>r\<in>set rs. T \<le> tick r - st then Some nullptr else None) \<and>
         notifications (snd (consume (Some k) T st rs n)) = notifications n \<and>
         lock_attempts (snd (consume (Some k) T st rs n)) =
           lock_attempts n + min (length rs) (Suc (length (takeWhile (\<lambda>r. \<not> T \<le> tick r - st) rs)))"
    using consume_loop_absent [OF a, of T st rs] assms(1)
    by (simp add: consume_def)
  have t: "fst (consume (Some k) T st (ticking st ok m) n) =
           (if 0 < m \<and> unat T \<le> m then Some nullptr else None)"
    using consume_loop_absent [OF a, of T st "ticking st ok m"] assms(1)
    by (simp add: consume_def ticking_deadline)
  from g t show ?thesis by simp
qed

theorem consume_absent_key_witness:
  "mutex example_store \<noteq> nullptr \<and> notifications example_store ''a'' = None \<and>
   fst (consume (Some ''a'') 5 100
      [lock_free 102, lock_busy 104, lock_free 105, lock_free 200] example_store) = Some nullptr \<and>
   lock_attempts (snd (consume (Some ''a'') 5 100
      [lock_free 102, lock_busy 104, lock_free 105, lock_free 200] example_store)) = 3 \<and>
   fst (consume (Some ''a'') 5 100 [lock_free 102, lock_busy 104] example_store) = None"
  using consume_absent_key [of example_store "''a''" 5 100
      "[lock_free 102, lock_busy 104, lock_free 105, lock_free 200]"]
    consume_absent_key [of example_store "''a''" 5 100 "[lock_free 102, lock_busy 104]"]
  by (simp add: example_defs lock_attempts_def)

end
